theory Spec2Isabelle
  imports Complex_Main "HOL-Library.AList" "HOL-Library.Product_Lexorder"
begin

section \<open>Values shared by the two applications\<close>

text \<open>
  The two model files (\<^verbatim>\<open>apps/cloud_coverage/models.py\<close> and
  \<^verbatim>\<open>apps/spectral_anomaly/models.py\<close>) compute on numpy arrays, xarray datasets,
  Python dictionaries keyed by \<^verbatim>\<open>datetime\<close> objects and strings.
  Exceptions are values of type \<open>error\<close>; a function that can raise returns
  \<open>error + 'a\<close> with \<open>Inl\<close> for the exception.
\<close>

datatype error = ValueError | IndexError | KeyError | ZeroDivisionError

text \<open>
  A 64-bit float as numpy produces it from a true division of integers. A finite result
  is represented by the exact quotient it rounds (rounding to the nearest double is not
  modelled); the three special values are kept apart, because numpy's integer division by
  zero does not raise: it warns and yields \<^verbatim>\<open>nan\<close> for \<^verbatim>\<open>0/0\<close> and a signed
  infinity otherwise.
\<close>

datatype float64 = Fin rat | PosInf | NegInf | NaN

definition true_divide :: "int \<Rightarrow> int \<Rightarrow> float64" where
  "true_divide a b =
     (if b = 0 then (if a = 0 then NaN else if 0 < a then PosInf else NegInf)
      else Fin (rat_of_int a / rat_of_int b))"


text \<open>
  A numpy array is its shape and its items by index. Counts are numpy \<^verbatim>\<open>int64\<close>
  values; they count time slices and pixels and stay far inside the 64-bit range, so they
  are integers here.
\<close>

record 'a ndarray2 =
  shape2 :: "nat \<times> nat"
  item2 :: "nat \<Rightarrow> nat \<Rightarrow> 'a"

record 'a ndarray3 =
  shape3 :: "nat \<times> nat \<times> nat"
  item3 :: "nat \<Rightarrow> nat \<Rightarrow> nat \<Rightarrow> 'a"

text \<open>\<^verbatim>\<open>clean_mask.astype(np.int8)\<close>: \<^verbatim>\<open>True\<close> is 1 and \<^verbatim>\<open>False\<close> is 0.\<close>

definition astype_int8 :: "bool ndarray3 \<Rightarrow> int ndarray3" where
  "astype_int8 a =
     \<lparr>shape3 = shape3 a, item3 = (\<lambda>t i j. if item3 a t i j then 1 else 0)\<rparr>"

text \<open>\<^verbatim>\<open>np.sum(a, axis=0)\<close>: the time axis is summed away.\<close>

definition sum_axis0 :: "int ndarray3 \<Rightarrow> int ndarray2" where
  "sum_axis0 a =
     (case shape3 a of (T, M, K) \<Rightarrow>
        \<lparr>shape2 = (M, K), item2 = (\<lambda>i j. sum_list (map (\<lambda>t. item3 a t i j) [0..<T]))\<rparr>)"

text \<open>\<^verbatim>\<open>np.full(shape, v)\<close>.\<close>

definition full :: "nat \<times> nat \<Rightarrow> 'a \<Rightarrow> 'a ndarray2" where
  "full shp v = \<lparr>shape2 = shp, item2 = (\<lambda>i j. v)\<rparr>"

text \<open>
  The in-place addition \<^verbatim>\<open>a += b\<close> of an array \<open>b\<close> into a two-dimensional variable
  of shape \<open>shp\<close>. numpy broadcasts \<open>b\<close> to the shape of \<open>a\<close>: an axis of \<open>b\<close> must have
  the length of the same axis of \<open>a\<close> or length one, otherwise a \<^verbatim>\<open>ValueError\<close> is
  raised.
\<close>

definition iadd :: "nat \<times> nat \<Rightarrow> (nat \<Rightarrow> nat \<Rightarrow> int) \<Rightarrow> int ndarray2 \<Rightarrow> error + (nat \<Rightarrow> nat \<Rightarrow> int)" where
  "iadd shp a b =
     (case (shp, shape2 b) of ((M, K), (p, q)) \<Rightarrow>
        if (p = M \<or> p = 1) \<and> (q = K \<or> q = 1)
        then Inr (\<lambda>i j. a i j + item2 b (if p = 1 then 0 else i) (if q = 1 then 0 else j))
        else Inl ValueError)"

text \<open>
  A Python \<^verbatim>\<open>datetime\<close>: year, month, day, hour, minute, second, microsecond.
  Naive datetimes compare field by field in this order, which is the lexicographic order
  of the tuple.
\<close>

type_synonym datetime = "nat \<times> nat \<times> nat \<times> nat \<times> nat \<times> nat \<times> nat"

text \<open>
  An \<^verbatim>\<open>xarray.Dataset\<close> on the dimensions latitude and longitude. The input
  dataset has a time coordinate and its data variables in order; a data variable of the
  composite raster is a two-dimensional array. Coordinate labels are carried, only their
  number is used.
\<close>

record coords =
  latitude :: "rat list"
  longitude :: "rat list"

record dataset = coords +
  time :: "datetime list"
  data_vars :: "(string \<times> int ndarray2) list"

text \<open>
  The accumulator state that \<^verbatim>\<open>clear_percentage\<close> builds: a dataset whose three
  variables \<^verbatim>\<open>total_pixels\<close>, \<^verbatim>\<open>total_clear\<close> and \<^verbatim>\<open>clear_percentage\<close>
  all have the dimensions (latitude, longitude), so their common shape is given by the
  coordinates. The variable \<^verbatim>\<open>clear_percentage\<close> is the field \<open>clear_percentage_var\<close>
  (the name \<open>clear_percentage\<close> is the function's).
\<close>

record product = coords +
  total_pixels :: "nat \<Rightarrow> nat \<Rightarrow> int"
  total_clear :: "nat \<Rightarrow> nat \<Rightarrow> int"
  clear_percentage_var :: "nat \<Rightarrow> nat \<Rightarrow> float64"

definition dims :: "'a coords_scheme \<Rightarrow> nat \<times> nat" where
  "dims c = (length (latitude c), length (longitude c))"

section \<open>Cloud coverage: the clear-pixel accumulator\<close>

text \<open>
  \<^verbatim>\<open>clear_percentage(dataset_in, clean_mask, intermediate_product=None, no_data=-9999)\<close>,
  the closure returned by \<^verbatim>\<open>Query.get_processing_method\<close> of the cloud coverage
  application. The parameter \<^verbatim>\<open>no_data\<close> is never read.

  Without a prior state a new dataset is built: \<^verbatim>\<open>xr.Dataset\<close> raises
  \<^verbatim>\<open>ValueError\<close> when the arrays' shape (the mask's spatial shape) conflicts with the
  lengths of the coordinates taken from \<^verbatim>\<open>dataset_in\<close>. With a prior state the
  coordinates of \<^verbatim>\<open>dataset_in\<close> are not read and the two totals are updated in
  place; the exception of a failed \<^verbatim>\<open>+=\<close> is the result (the half-updated prior
  state is not returned). The time axis of the mask is never compared with
  \<^verbatim>\<open>len(dataset_in.time)\<close>.
\<close>

definition clear_percentage :: "dataset \<Rightarrow> bool ndarray3 \<Rightarrow> product option \<Rightarrow> error + product" where
  "clear_percentage dataset_in clean_mask intermediate_product =
     (let num_acq = int (length (time dataset_in));
          num_clear = sum_axis0 (astype_int8 clean_mask)
      in case intermediate_product of
           None \<Rightarrow>
             if shape2 num_clear = dims dataset_in
             then let tp = item2 (full (shape2 num_clear) num_acq);
                      tc = item2 num_clear
                  in Inr \<lparr>latitude = latitude dataset_in, longitude = longitude dataset_in,
                          total_pixels = tp, total_clear = tc,
                          clear_percentage_var = (\<lambda>i j. true_divide (tc i j) (tp i j))\<rparr>
             else Inl ValueError
         | Some ip \<Rightarrow>
             (let tp = (\<lambda>i j. total_pixels ip i j + num_acq)
              in case iadd (dims ip) (total_clear ip) num_clear of
                   Inl e \<Rightarrow> Inl e
                 | Inr tc \<Rightarrow>
                     Inr (ip\<lparr>total_pixels := tp, total_clear := tc,
                             clear_percentage_var := (\<lambda>i j. true_divide (tc i j) (tp i j))\<rparr>)))"

text \<open>
  Modelled from the spec: the processing driver that feeds the chunks is not among the
  sources. "Returns the updated state; caller threads it through successive chunks":
  a chunk is a dataset with its clean mask, and the state returned for one chunk is the
  prior state of the next. The first exception ends the run.
\<close>

fun accumulate :: "product option \<Rightarrow> (dataset \<times> bool ndarray3) list \<Rightarrow> error + product option" where
  "accumulate st [] = Inr st"
| "accumulate st ((d, m) # chunks) =
     (case clear_percentage d m st of
        Inl e \<Rightarrow> Inl e
      | Inr s \<Rightarrow> accumulate (Some s) chunks)"

text \<open>The tally invariant of a state, at every location of its grid.\<close>

definition tally_ok :: "product \<Rightarrow> bool" where
  "tally_ok s =
     (\<forall>i < length (latitude s). \<forall>j < length (longitude s).
        0 \<le> total_clear s i j \<and> total_clear s i j \<le> total_pixels s i j)"

text \<open>
  A chunk as the loader supplies it for a grid of \<open>M\<close> latitudes and \<open>K\<close> longitudes:
  the mask has the shape of the data, (time, latitude, longitude).
\<close>

definition chunk_on :: "nat \<times> nat \<Rightarrow> dataset \<times> bool ndarray3 \<Rightarrow> bool" where
  "chunk_on shp c =
     (case c of (d, m) \<Rightarrow> dims d = shp \<and> shape3 m = (length (time d), fst shp, snd shp))"

text \<open>The scenario's chunks: one pixel, three acquisitions all clear, then two of which
  the first is clear; and a chunk with no acquisition at all.\<close>

definition one_pixel :: "nat \<Rightarrow> dataset" where
  "one_pixel n =
     \<lparr>latitude = [0], longitude = [0],
      time = map (\<lambda>k. (2016, 1, Suc k, 0, 0, 0, 0)) [0..<n], data_vars = []\<rparr>"

definition mask_clear_below :: "nat \<Rightarrow> nat \<Rightarrow> bool ndarray3" where
  "mask_clear_below n c = \<lparr>shape3 = (n, 1, 1), item3 = (\<lambda>t i j. t < c)\<rparr>"

text \<open>What a run of updates leaves at one location: the two totals and the percentage.\<close>

definition tally_at :: "error + product option \<Rightarrow> nat \<Rightarrow> nat \<Rightarrow> (int \<times> int \<times> float64) option" where
  "tally_at r i j =
     (case r of
        Inr (Some s) \<Rightarrow> Some (total_pixels s i j, total_clear s i j, clear_percentage_var s i j)
      | _ \<Rightarrow> None)"

definition time_consistent :: "dataset \<times> bool ndarray3 \<Rightarrow> bool" where
  "time_consistent c = (case c of (d, m) \<Rightarrow> fst (shape3 m) = length (time d))"

section \<open>Spectral anomaly: the query's compositing choice\<close>

text \<open>
  The mosaic functions live in \<^verbatim>\<open>utils.data_cube_utilities.dc_mosaic\<close>, outside the
  sources; the query only selects one of them, so they are names here.
  \<open>compositor_id\<close> is \<^verbatim>\<open>self.compositor.id\<close>.
\<close>

datatype mosaic_fn =
  create_mosaic | create_median_mosaic | create_max_ndvi_mosaic | create_min_ndvi_mosaic

record query =
  compositor_id :: string

definition get_iterative :: "query \<Rightarrow> bool" where
  "get_iterative self = (compositor_id self \<noteq> ''median_pixel'')"

definition get_reverse_time :: "query \<Rightarrow> bool" where
  "get_reverse_time self = (compositor_id self = ''most_recent'')"

definition processing_methods :: "(string \<times> mosaic_fn) list" where
  "processing_methods =
     [(''most_recent'', create_mosaic),
      (''least_recent'', create_mosaic),
      (''max_ndvi'', create_max_ndvi_mosaic),
      (''min_ndvi'', create_min_ndvi_mosaic),
      (''median_pixel'', create_median_mosaic)]"

text \<open>\<^verbatim>\<open>processing_methods.get(self.compositor.id, create_mosaic)\<close>.\<close>

definition get_processing_method :: "query \<Rightarrow> mosaic_fn" where
  "get_processing_method self =
     (case map_of processing_methods (compositor_id self) of
        Some f \<Rightarrow> f
      | None \<Rightarrow> create_mosaic)"

section \<open>Metadata (the same code in both applications)\<close>

text \<open>
  The running metadata is a Python dictionary from acquisition time to an inner dictionary
  \<^verbatim>\<open>{'clean_pixels': n}\<close>. A dictionary keeps its keys in insertion order and has
  each key once: it is an association list whose keys are distinct. The counts are numpy
  integers (\<^verbatim>\<open>metadata_from_dataset\<close> adds \<^verbatim>\<open>np.sum(...)\<close> to them).
\<close>

record tally =
  clean_pixels :: int

definition is_dict :: "('k \<times> 'v) list \<Rightarrow> bool" where
  "is_dict d = distinct (map fst d)"

definition getitem :: "('k \<times> 'v) list \<Rightarrow> 'k \<Rightarrow> error + 'v" where
  "getitem d k = (case map_of d k of None \<Rightarrow> Inl KeyError | Some v \<Rightarrow> Inr v)"

text \<open>
  \<^verbatim>\<open>combine_metadata(self, old, new)\<close>. The loop visits the items of \<open>new\<close> in
  order; \<^verbatim>\<open>old[key] = ...\<close> replaces the entry of a key where it stands or appends a
  new key, which is \<open>AList.update\<close>. (Python stores in \<open>old\<close> a reference to the inner
  dictionary of \<open>new\<close>; here the entry is copied.)
\<close>

fun combine_metadata :: "('k \<times> tally) list \<Rightarrow> ('k \<times> tally) list \<Rightarrow> ('k \<times> tally) list" where
  "combine_metadata old [] = old"
| "combine_metadata old ((key, v) # new) =
     (case map_of old key of
        Some t \<Rightarrow>
          combine_metadata
            (AList.update key (t\<lparr>clean_pixels := clean_pixels t + clean_pixels v\<rparr>) old) new
      | None \<Rightarrow> combine_metadata (AList.update key v old) new)"

text \<open>The fields of the task record that the metadata methods assign.\<close>

record metadata =
  pixel_count :: int
  clean_pixel_count :: int
  percentage_clean_pixels :: float64
  total_scenes :: int
  scenes_processed :: int
  acquisition_list :: string
  clean_pixels_per_acquisition :: string
  clean_pixel_percentages_per_acquisition :: string



text \<open>
  A task record before any metadata method has run, and a composite raster of \<open>M\<close> by
  \<open>K\<close> pixels whose single band holds the no-data value everywhere; what
  \<open>final_metadata_from_dataset\<close> stores is read off by \<open>final_counts\<close>.
\<close>

definition blank_metadata :: metadata where
  "blank_metadata =
     \<lparr>pixel_count = 0, clean_pixel_count = 0, percentage_clean_pixels = Fin 0,
      total_scenes = 0, scenes_processed = 0, acquisition_list = [],
      clean_pixels_per_acquisition = [], clean_pixel_percentages_per_acquisition = []\<rparr>"



subsection \<open>Strings\<close>

definition digit_char :: "nat \<Rightarrow> char" where
  "digit_char n = ''0123456789'' ! n"

text \<open>\<^verbatim>\<open>str\<close> of a non-negative integer: its decimal digits.\<close>

fun str_nat :: "nat \<Rightarrow> string" where
  "str_nat n = (if n < 10 then [digit_char n] else str_nat (n div 10) @ [digit_char (n mod 10)])"

declare str_nat.simps [simp del]

definition str_int :: "int \<Rightarrow> string" where
  "str_int i = (if i < 0 then CHR ''-'' # str_nat (nat (- i)) else str_nat (nat i))"

text \<open>Zero padding on the left up to a width, as \<^verbatim>\<open>%m\<close>, \<^verbatim>\<open>%d\<close> and \<^verbatim>\<open>%Y\<close> pad.\<close>

definition zfill :: "nat \<Rightarrow> string \<Rightarrow> string" where
  "zfill w s = replicate (w - length s) CHR ''0'' @ s"

text \<open>
  \<^verbatim>\<open>date.strftime("%m/%d/%Y")\<close>: month and day as two digits, the year with century
  as four digits (the form Python documents for \<^verbatim>\<open>%Y\<close>).
\<close>

fun strftime_mdY :: "datetime \<Rightarrow> string" where
  "strftime_mdY (y, mo, d, rest) =
     zfill 2 (str_nat mo) @ ''/'' @ zfill 2 (str_nat d) @ ''/'' @ zfill 4 (str_nat y)"

text \<open>\<^verbatim>\<open>sep.join(xs)\<close>.\<close>

fun join :: "string \<Rightarrow> string list \<Rightarrow> string" where
  "join sep [] = []"
| "join sep [x] = x"
| "join sep (x # y # ys) = x @ sep @ join sep (y # ys)"


text \<open>A list comprehension whose body can raise: the first exception is the result.\<close>

fun comprehension :: "('a \<Rightarrow> error + 'b) \<Rightarrow> 'a list \<Rightarrow> error + 'b list" where
  "comprehension f [] = Inr []"
| "comprehension f (x # xs) =
     (case f x of
        Inl e \<Rightarrow> Inl e
      | Inr y \<Rightarrow> (case comprehension f xs of Inl e \<Rightarrow> Inl e | Inr ys \<Rightarrow> Inr (y # ys)))"

text \<open>
  \<^verbatim>\<open>metadata_from_dict(self, metadata_dict)\<close>. \<^verbatim>\<open>dates.sort(reverse=True)\<close> puts
  the keys in descending order. The three list comprehensions read
  \<^verbatim>\<open>metadata_dict[date]['clean_pixels']\<close> for the same dates in the same order; the
  entries are looked up once here. The counts are numpy integers, so the division by
  \<^verbatim>\<open>self.pixel_count\<close> is numpy's. \<open>str_float\<close> is Python's \<^verbatim>\<open>str\<close> on a float, a
  parameter: the shortest decimal that reads back as the same double is not modelled.
\<close>

definition metadata_from_dict ::
  "(float64 \<Rightarrow> string) \<Rightarrow> metadata \<Rightarrow> (datetime \<times> tally) list \<Rightarrow> error + metadata" where
  "metadata_from_dict str_float self metadata_dict =
     (let dates = rev (sort (map fst metadata_dict))
      in case comprehension (getitem metadata_dict) dates of
           Inl e \<Rightarrow> Inl e
         | Inr entries \<Rightarrow>
             Inr (self\<lparr>total_scenes := int (length dates),
                       scenes_processed := int (length dates),
                       acquisition_list := join '','' (map strftime_mdY dates),
                       clean_pixels_per_acquisition :=
                         join '','' (map (\<lambda>e. str_int (clean_pixels e)) entries),
                       clean_pixel_percentages_per_acquisition :=
                         join '','' (map (\<lambda>e. str_float
                           (true_divide (clean_pixels e * 100) (pixel_count self))) entries)\<rparr>))"

subsection \<open>Reading the stored strings\<close>





text \<open>
  Python's \<^verbatim>\<open>str\<close> on the floats met in the examples below: \<^verbatim>\<open>nan\<close>, the
  infinities, and whole numbers (printed with \<^verbatim>\<open>.0\<close> while they are below
  \<open>10\<^sup>1\<^sup>6\<close>). Other finite values are not rendered; the examples do not produce them.
\<close>

definition str_float_whole :: "float64 \<Rightarrow> string" where
  "str_float_whole x =
     (case x of
        NaN \<Rightarrow> ''nan''
      | PosInf \<Rightarrow> ''inf''
      | NegInf \<Rightarrow> ''-inf''
      | Fin q \<Rightarrow> (case quotient_of q of (n, d) \<Rightarrow> if d = 1 then str_int n @ ''.0'' else ''?''))"

text \<open>
  The metadata of two chunks that share the acquisition of 5 January 2016, and a task
  record whose raster has 100 pixels.
\<close>

definition metadata_a :: "(datetime \<times> tally) list" where
  "metadata_a =
     [((2016, 1, 5, 10, 30, 0, 0), \<lparr>clean_pixels = 10\<rparr>),
      ((2016, 2, 6, 10, 31, 0, 0), \<lparr>clean_pixels = 7\<rparr>)]"

definition metadata_b :: "(datetime \<times> tally) list" where
  "metadata_b =
     [((2016, 3, 9, 10, 29, 0, 0), \<lparr>clean_pixels = 4\<rparr>),
      ((2016, 1, 5, 10, 30, 0, 0), \<lparr>clean_pixels = 5\<rparr>)]"

definition task_100 :: metadata where
  "task_100 = blank_metadata\<lparr>pixel_count := 100\<rparr>"

section \<open>Properties of the accumulator\<close>

lemma item2_num_clear:
  "shape3 m = (T, M, K) \<Longrightarrow>
   item2 (sum_axis0 (astype_int8 m)) i j = (\<Sum>t<T. if item3 m t i j then 1 else 0)"
  by (simp add: sum_axis0_def astype_int8_def interv_sum_list_conv_sum_set_nat lessThan_atLeast0)

lemma shape2_num_clear:
  "shape3 m = (T, M, K) \<Longrightarrow> shape2 (sum_axis0 (astype_int8 m)) = (M, K)"
  by (simp add: sum_axis0_def astype_int8_def)

lemma num_clear_bounds:
  assumes s: "shape3 m = (T, M, K)"
  shows "0 \<le> item2 (sum_axis0 (astype_int8 m)) i j"
    and "item2 (sum_axis0 (astype_int8 m)) i j \<le> int T"
proof -
  have "(\<Sum>t<T. if item3 m t i j then 1 else 0) \<le> (\<Sum>t<T. (1::int))"
    by (rule sum_mono) simp
  then show "item2 (sum_axis0 (astype_int8 m)) i j \<le> int T"
    using s by (simp add: item2_num_clear)
  have "0 \<le> (\<Sum>t<T. if item3 m t i j then 1 else (0::int))"
    by (rule sum_nonneg) simp
  then show "0 \<le> item2 (sum_axis0 (astype_int8 m)) i j"
    using s by (simp add: item2_num_clear)
qed

lemma clear_percentage_None:
  assumes "shape3 m = (T, M, K)" "dims d = (M, K)"
  shows "clear_percentage d m None =
     Inr \<lparr>latitude = latitude d, longitude = longitude d,
          total_pixels = (\<lambda>i j. int (length (time d))),
          total_clear = item2 (sum_axis0 (astype_int8 m)),
          clear_percentage_var = (\<lambda>i j. true_divide (item2 (sum_axis0 (astype_int8 m)) i j) (int (length (time d))))\<rparr>"
  using assms by (simp add: clear_percentage_def shape2_num_clear full_def Let_def)

lemma clear_percentage_Some:
  assumes "shape3 m = (T, M, K)" "dims p = (M, K)"
  shows "clear_percentage d m (Some p) =
     Inr (p\<lparr>total_pixels := (\<lambda>i j. total_pixels p i j + int (length (time d))),
            total_clear := (\<lambda>i j. total_clear p i j + item2 (sum_axis0 (astype_int8 m)) (if M = 1 then 0 else i) (if K = 1 then 0 else j)),
            clear_percentage_var := (\<lambda>i j. true_divide (total_clear p i j + item2 (sum_axis0 (astype_int8 m)) (if M = 1 then 0 else i) (if K = 1 then 0 else j)) (total_pixels p i j + int (length (time d))))\<rparr>)"
  using assms by (simp add: clear_percentage_def shape2_num_clear iadd_def Let_def)

lemma dims_update [simp]:
  "dims (p\<lparr>total_pixels := a, total_clear := b, clear_percentage_var := c\<rparr>) = dims p"
  by (simp add: dims_def)

text \<open>What any successful update returns, whatever the shapes.\<close>

lemma clear_percentage_Inr_None:
  assumes "clear_percentage d m None = Inr s"
  shows "dims s = dims d"
    and "total_pixels s = (\<lambda>i j. int (length (time d)))"
    and "total_clear s = item2 (sum_axis0 (astype_int8 m))"
    and "clear_percentage_var s = (\<lambda>i j. true_divide (total_clear s i j) (total_pixels s i j))"
  using assms by (auto simp: clear_percentage_def full_def Let_def dims_def split: if_splits)

lemma clear_percentage_Inr_Some:
  assumes "clear_percentage d m (Some p) = Inr s"
  shows "dims s = dims p"
    and "total_pixels s = (\<lambda>i j. total_pixels p i j + int (length (time d)))"
    and "total_clear s = (\<lambda>i j. total_clear p i j + item2 (sum_axis0 (astype_int8 m))
           (if fst (shape2 (sum_axis0 (astype_int8 m))) = 1 then 0 else i)
           (if snd (shape2 (sum_axis0 (astype_int8 m))) = 1 then 0 else j))"
    and "clear_percentage_var s = (\<lambda>i j. true_divide (total_clear s i j) (total_pixels s i j))"
  using assms
  by (auto simp: clear_percentage_def iadd_def Let_def dims_def split: if_splits sum.splits prod.splits)

lemma tally_ok_step:
  assumes r: "clear_percentage d m st = Inr s"
    and tc: "time_consistent (d, m)"
    and st: "case st of None \<Rightarrow> True | Some p \<Rightarrow> tally_ok p"
  shows "tally_ok s"
proof -
  obtain T M K where shp: "shape3 m = (T, M, K)" by (cases "shape3 m") auto
  with tc have T: "T = length (time d)" by (simp add: time_consistent_def)
  note b = num_clear_bounds [OF shp]
  show ?thesis
  proof (cases st)
    case None
    with r show ?thesis
      using clear_percentage_Inr_None [of d m s] b T by (simp add: tally_ok_def)
  next
    case (Some p)
    with st have p: "tally_ok p" by simp
    from r Some have r': "clear_percentage d m (Some p) = Inr s" by simp
    have l: "length (latitude s) = length (latitude p)" "length (longitude s) = length (longitude p)"
      using clear_percentage_Inr_Some(1) [OF r'] by (simp_all add: dims_def)
    show ?thesis
      unfolding tally_ok_def l
      using p b T
      by (simp add: tally_ok_def clear_percentage_Inr_Some(2,3) [OF r'] add_mono add_nonneg_nonneg)
  qed
qed

lemma accumulate_tally_ok:
  assumes "\<forall>c\<in>set chunks. time_consistent c"
    and "case st of None \<Rightarrow> True | Some p \<Rightarrow> tally_ok p"
    and "accumulate st chunks = Inr (Some s)"
  shows "tally_ok s"
  using assms
proof (induction chunks arbitrary: st)
  case Nil
  then show ?case by simp
next
  case (Cons c chunks)
  obtain d m where c: "c = (d, m)" by (cases c)
  from Cons.prems(3) c obtain s1 where
    s1: "clear_percentage d m st = Inr s1" and rest: "accumulate (Some s1) chunks = Inr (Some s)"
    by (auto split: sum.splits)
  from Cons.prems(1) c have "time_consistent (d, m)" by simp
  from tally_ok_step [OF s1 this Cons.prems(2)] have "tally_ok s1" .
  with Cons.IH [of "Some s1"] Cons.prems(1) rest show ?case by simp
qed

lemma accumulate_total:
  assumes "\<forall>c\<in>set chunks. chunk_on shp c"
    and "case st of None \<Rightarrow> True | Some p \<Rightarrow> dims p = shp"
  shows "\<exists>r. accumulate st chunks = Inr r \<and> (case r of None \<Rightarrow> st = None \<and> chunks = [] | Some s \<Rightarrow> dims s = shp)"
  using assms
proof (induction chunks arbitrary: st)
  case Nil
  then show ?case by (cases st) auto
next
  case (Cons c chunks)
  obtain d m where c: "c = (d, m)" by (cases c)
  obtain M K where shp: "shp = (M, K)" by (cases shp)
  from Cons.prems(1) c shp have d: "dims d = (M, K)" and m: "shape3 m = (length (time d), M, K)"
    by (simp_all add: chunk_on_def)
  have "\<exists>s1. clear_percentage d m st = Inr s1 \<and> dims s1 = shp"
  proof (cases st)
    case None
    then show ?thesis
      using clear_percentage_None [OF m d] shp d by (simp add: dims_def)
  next
    case (Some p)
    with Cons.prems(2) shp have "dims p = (M, K)" by simp
    from clear_percentage_Some [OF m this] Some shp this show ?thesis by simp
  qed
  then obtain s1 where s1: "clear_percentage d m st = Inr s1" "dims s1 = shp" by blast
  from Cons.IH [of "Some s1"] Cons.prems(1) s1(2)
  obtain r where "accumulate (Some s1) chunks = Inr r" "case r of None \<Rightarrow> False | Some s \<Rightarrow> dims s = shp"
    by (auto split: option.splits)
  with s1 c show ?case by (auto split: option.splits)
qed

lemma scenario_shapes:
  "shape3 (mask_clear_below n c) = (length (time (one_pixel n)), 1, 1)"
  "dims (one_pixel n) = (1, 1)"
  by (simp_all add: mask_clear_below_def one_pixel_def dims_def)

lemma scenario_run:
  "tally_at (accumulate None [(one_pixel 3, mask_clear_below 3 3), (one_pixel 2, mask_clear_below 2 1)]) 0 0
     = Some (5, 4, Fin 0.8)"
  by (simp add: tally_at_def clear_percentage_def sum_axis0_def astype_int8_def full_def iadd_def
      dims_def one_pixel_def mask_clear_below_def true_divide_def Let_def eval_nat_numeral)

text \<open>
  Claim C1. For a dataset with \<open>n\<close> time slices and a clean mask of the same shape
  \<open>(n, M, K)\<close>: without a prior state the update returns a state on the same grid whose
  \<open>total_pixels\<close> is \<open>n\<close> at every location and whose \<open>total_clear\<close> is the sum over
  time of the mask there; with a prior state on that grid it returns the state with \<open>n\<close>
  added to \<open>total_pixels\<close> and the mask sum added to \<open>total_clear\<close> at every location.
  Three all-clear acquisitions followed by two acquisitions with one clear observation
  leave 5 pixels, 4 clear and the percentage 0.8.
\<close>

theorem clear_percentage_accumulates:
  assumes "shape3 clean_mask = (n, M, K)" and "dims dataset_in = (M, K)"
    and "length (time dataset_in) = n"
  shows "(\<exists>s. clear_percentage dataset_in clean_mask None = Inr s \<and> dims s = (M, K) \<and>
            (\<forall>i<M. \<forall>j<K. total_pixels s i j = int n \<and>
               total_clear s i j = (\<Sum>t<n. if item3 clean_mask t i j then 1 else 0))) \<and>
         (\<forall>prior. dims prior = (M, K) \<longrightarrow>
            (\<exists>s. clear_percentage dataset_in clean_mask (Some prior) = Inr s \<and> dims s = (M, K) \<and>
               (\<forall>i<M. \<forall>j<K. total_pixels s i j = total_pixels prior i j + int n \<and>
                  total_clear s i j = total_clear prior i j +
                    (\<Sum>t<n. if item3 clean_mask t i j then 1 else 0)))) \<and>
         tally_at (accumulate None
            [(one_pixel 3, mask_clear_below 3 3), (one_pixel 2, mask_clear_below 2 1)]) 0 0
           = Some (5, 4, Fin 0.8)"
proof (intro conjI allI impI)
  show "\<exists>s. clear_percentage dataset_in clean_mask None = Inr s \<and> dims s = (M, K) \<and>
            (\<forall>i<M. \<forall>j<K. total_pixels s i j = int n \<and>
               total_clear s i j = (\<Sum>t<n. if item3 clean_mask t i j then 1 else 0))"
    using clear_percentage_None [OF assms(1,2)] assms(2,3)
    by (simp add: item2_num_clear [OF assms(1)] dims_def)
next
  fix prior :: product
  assume p: "dims prior = (M, K)"
  have "\<And>i j. i < M \<Longrightarrow> j < K \<Longrightarrow>
      item2 (sum_axis0 (astype_int8 clean_mask)) (if M = 1 then 0 else i) (if K = 1 then 0 else j)
        = (\<Sum>t<n. if item3 clean_mask t i j then 1 else 0)"
    by (auto simp: item2_num_clear [OF assms(1)])
  then show "\<exists>s. clear_percentage dataset_in clean_mask (Some prior) = Inr s \<and> dims s = (M, K) \<and>
               (\<forall>i<M. \<forall>j<K. total_pixels s i j = total_pixels prior i j + int n \<and>
                  total_clear s i j = total_clear prior i j +
                    (\<Sum>t<n. if item3 clean_mask t i j then 1 else 0))"
    using clear_percentage_Some [OF assms(1) p] assms(3) p by simp
next
  show "tally_at (accumulate None
            [(one_pixel 3, mask_clear_below 3 3), (one_pixel 2, mask_clear_below 2 1)]) 0 0
           = Some (5, 4, Fin 0.8)"
    by (rule scenario_run)
qed

theorem clear_percentage_accumulates_witness:
  "shape3 (mask_clear_below 2 1) = (2, 1, 1) \<and> dims (one_pixel 2) = (1, 1) \<and>
   length (time (one_pixel 2)) = 2 \<and>
   tally_at (accumulate None [(one_pixel 2, mask_clear_below 2 1)]) 0 0 = Some (2, 1, Fin 0.5)"
proof -
  have h: "shape3 (mask_clear_below 2 1) = (2, 1, 1)" "dims (one_pixel 2) = (1, 1)"
    "length (time (one_pixel 2)) = 2"
    by (simp_all add: mask_clear_below_def one_pixel_def dims_def)
  from clear_percentage_accumulates [OF h]
  obtain s where s: "clear_percentage (one_pixel 2) (mask_clear_below 2 1) None = Inr s"
    and t: "\<forall>i<1. \<forall>j<1. total_pixels s i j = int 2 \<and>
               total_clear s i j = (\<Sum>t<2. if item3 (mask_clear_below 2 1) t i j then 1 else 0)"
    by blast
  from t have "total_pixels s 0 0 = 2" "total_clear s 0 0 = 1"
    by (simp_all add: mask_clear_below_def lessThan_Suc eval_nat_numeral)
  moreover have "clear_percentage_var s 0 0 = true_divide (total_clear s 0 0) (total_pixels s 0 0)"
    using clear_percentage_Inr_None(4) [OF s] by simp
  ultimately show ?thesis using h s by (simp add: tally_at_def true_divide_def)
qed

text \<open>
  Claim C2, as stated, fails: the code divides without a guard. A first chunk without any
  acquisition leaves \<open>total_pixels = 0\<close> and \<open>total_clear = 0\<close>, and the percentage there
  is numpy's \<^verbatim>\<open>nan\<close>, not 0.
\<close>

theorem zero_pixels_percentage_nan:
  "tally_at (accumulate None [(one_pixel 0, mask_clear_below 0 0)]) 0 0 = Some (0, 0, NaN) \<and>
   tally_at (accumulate None [(one_pixel 0, mask_clear_below 0 0)]) 0 0 \<noteq> Some (0, 0, Fin 0)"
  by (simp add: tally_at_def clear_percentage_def sum_axis0_def astype_int8_def full_def
      dims_def one_pixel_def mask_clear_below_def true_divide_def Let_def)

text \<open>
  Claim C2, amended. After every update the percentage at every location is the quotient
  \<open>total_clear / total_pixels\<close> where \<open>total_pixels\<close> is not zero. Where
  \<open>total_pixels\<close> is zero nothing is raised and the value is not 0: it is \<^verbatim>\<open>nan\<close> when
  \<open>total_clear\<close> is zero too, and a signed infinity otherwise. No update raises
  \<^verbatim>\<open>ZeroDivisionError\<close>.
\<close>

theorem clear_percentage_quotient:
  assumes "clear_percentage d m st = Inr s"
  shows "(total_pixels s i j \<noteq> 0 \<longrightarrow>
            clear_percentage_var s i j =
              Fin (rat_of_int (total_clear s i j) / rat_of_int (total_pixels s i j))) \<and>
         (total_pixels s i j = 0 \<longrightarrow>
            clear_percentage_var s i j =
              (if total_clear s i j = 0 then NaN
               else if 0 < total_clear s i j then PosInf else NegInf)) \<and>
         clear_percentage d' m' st' \<noteq> Inl ZeroDivisionError"
proof -
  have "clear_percentage_var s = (\<lambda>i j. true_divide (total_clear s i j) (total_pixels s i j))"
    using assms clear_percentage_Inr_None(4) clear_percentage_Inr_Some(4) by (cases st) auto
  moreover have "clear_percentage d' m' st' \<noteq> Inl ZeroDivisionError"
    by (auto simp: clear_percentage_def iadd_def Let_def split: option.splits if_splits prod.splits)
  ultimately show ?thesis by (simp add: true_divide_def)
qed

theorem clear_percentage_quotient_witness:
  "\<exists>s. clear_percentage (one_pixel 0) (mask_clear_below 0 0) None = Inr s \<and>
       total_pixels s 0 0 = 0 \<and> clear_percentage_var s 0 0 = NaN"
proof -
  obtain s where s: "clear_percentage (one_pixel 0) (mask_clear_below 0 0) None = Inr s"
    using clear_percentage_None [OF scenario_shapes] by simp
  have "total_pixels s 0 0 = 0" "total_clear s 0 0 = 0"
    using clear_percentage_Inr_None(2,3) [OF s]
    by (simp_all add: one_pixel_def sum_axis0_def astype_int8_def mask_clear_below_def)
  with clear_percentage_quotient [OF s, of 0 0] s show ?thesis by auto
qed

text \<open>
  Claim C3. In a run of updates that starts without a state (or from a state that
  satisfies the invariant), where every chunk's mask has as many time slices as its
  dataset, the state after every update (the result of every prefix of the run) satisfies
  \<open>0 \<le> total_clear \<le> total_pixels\<close> at every location. When the chunks and the starting
  state all lie on one grid the run raises nothing and, if there is a chunk, ends in such
  a state.
\<close>

theorem tally_invariant:
  assumes "\<forall>c\<in>set chunks. time_consistent c"
    and "case st of None \<Rightarrow> True | Some p \<Rightarrow> tally_ok p"
  shows "(\<forall>k s. accumulate st (take k chunks) = Inr (Some s) \<longrightarrow> tally_ok s) \<and>
         ((\<forall>c\<in>set chunks. chunk_on shp c) \<and> (case st of None \<Rightarrow> True | Some p \<Rightarrow> dims p = shp)
            \<longrightarrow> (\<exists>r. accumulate st chunks = Inr r \<and>
                  (chunks \<noteq> [] \<longrightarrow> (\<exists>s. r = Some s \<and> dims s = shp \<and> tally_ok s))))"
proof (intro conjI allI impI)
  fix k s
  assume r: "accumulate st (take k chunks) = Inr (Some s)"
  have "\<forall>c\<in>set (take k chunks). time_consistent c"
    using assms(1) by (meson in_set_takeD)
  from accumulate_tally_ok [OF this assms(2) r] show "tally_ok s" .
next
  assume c: "(\<forall>c\<in>set chunks. chunk_on shp c) \<and> (case st of None \<Rightarrow> True | Some p \<Rightarrow> dims p = shp)"
  then have c1: "\<forall>c\<in>set chunks. chunk_on shp c"
    and c2: "case st of None \<Rightarrow> True | Some p \<Rightarrow> dims p = shp"
    by simp_all
  from accumulate_total [OF c1 c2] obtain r where
    r: "accumulate st chunks = Inr r"
      "case r of None \<Rightarrow> chunks = [] | Some s \<Rightarrow> dims s = shp"
    by (auto split: option.splits)
  show "\<exists>r. accumulate st chunks = Inr r \<and>
               (chunks \<noteq> [] \<longrightarrow> (\<exists>s. r = Some s \<and> dims s = shp \<and> tally_ok s))"
  proof (cases r)
    case None
    with r show ?thesis by simp
  next
    case (Some s)
    with r accumulate_tally_ok [OF assms, of s] show ?thesis by simp
  qed
qed

theorem tally_invariant_witness:
  "time_consistent (one_pixel 3, mask_clear_below 3 3) \<and>
   time_consistent (one_pixel 2, mask_clear_below 2 1) \<and>
   (\<exists>s. accumulate None [(one_pixel 3, mask_clear_below 3 3), (one_pixel 2, mask_clear_below 2 1)]
           = Inr (Some s) \<and> tally_ok s \<and> total_clear s 0 0 = 4 \<and> total_pixels s 0 0 = 5)"
proof -
  let ?cs = "[(one_pixel 3, mask_clear_below 3 3), (one_pixel 2, mask_clear_below 2 1)]"
  have tc: "\<forall>c\<in>set ?cs. time_consistent c"
    by (simp add: time_consistent_def one_pixel_def mask_clear_below_def)
  have on: "\<forall>c\<in>set ?cs. chunk_on (1, 1) c"
    by (simp add: chunk_on_def scenario_shapes)
  from tally_invariant [OF tc, of None "(1, 1)"] on
  obtain s where s: "accumulate None ?cs = Inr (Some s)" "tally_ok s" by auto
  from scenario_run s(1) have "total_clear s 0 0 = 4" "total_pixels s 0 0 = 5"
    by (simp_all add: tally_at_def)
  with s tc show ?thesis by auto
qed

text \<open>
  Claim C7. An update of an existing state with an empty chunk (no time slice in the
  dataset, none in the mask) leaves \<open>total_pixels\<close> and \<open>total_clear\<close> as they were at
  every location, and on the grid of the state the update succeeds.
\<close>

theorem empty_chunk_identity:
  assumes "time d = []" and "shape3 m = (0, M, K)"
  shows "(\<forall>s. clear_percentage d m (Some prior) = Inr s \<longrightarrow>
            total_pixels s = total_pixels prior \<and> total_clear s = total_clear prior \<and>
            dims s = dims prior) \<and>
         (dims prior = (M, K) \<longrightarrow> (\<exists>s. clear_percentage d m (Some prior) = Inr s))"
proof (intro conjI allI impI)
  fix s
  assume r: "clear_percentage d m (Some prior) = Inr s"
  have z: "item2 (sum_axis0 (astype_int8 m)) i j = 0" for i j
    using item2_num_clear [OF assms(2)] by simp
  show "total_pixels s = total_pixels prior"
    using clear_percentage_Inr_Some(2) [OF r] assms(1) by simp
  show "total_clear s = total_clear prior"
    using clear_percentage_Inr_Some(3) [OF r] by (simp add: z)
  show "dims s = dims prior"
    using clear_percentage_Inr_Some(1) [OF r] .
next
  assume "dims prior = (M, K)"
  from clear_percentage_Some [OF assms(2) this] show "\<exists>s. clear_percentage d m (Some prior) = Inr s"
    by blast
qed

theorem empty_chunk_identity_witness:
  "time (one_pixel 0) = [] \<and> shape3 (mask_clear_below 0 0) = (0, 1, 1) \<and>
   tally_at (accumulate None [(one_pixel 3, mask_clear_below 3 3), (one_pixel 0, mask_clear_below 0 0)]) 0 0
     = Some (3, 3, Fin 1)"
proof -
  have h: "time (one_pixel 0) = []" "shape3 (mask_clear_below 0 0) = (0, 1, 1)"
    by (simp_all add: one_pixel_def mask_clear_below_def)
  obtain p where p: "clear_percentage (one_pixel 3) (mask_clear_below 3 3) None = Inr p"
    using clear_percentage_None [OF scenario_shapes] by simp
  have p0: "total_pixels p 0 0 = 3" "total_clear p 0 0 = 3" "dims p = (1, 1)"
    using clear_percentage_Inr_None(1,2,3) [OF p]
    by (simp_all add: one_pixel_def sum_axis0_def astype_int8_def mask_clear_below_def dims_def
        eval_nat_numeral)
  from empty_chunk_identity [OF h, of p] p0(3)
  obtain s where s: "clear_percentage (one_pixel 0) (mask_clear_below 0 0) (Some p) = Inr s"
    and e: "total_pixels s = total_pixels p" "total_clear s = total_clear p"
    by auto
  have "clear_percentage_var s 0 0 = true_divide (total_clear s 0 0) (total_pixels s 0 0)"
    using clear_percentage_Inr_Some(4) [OF s] by simp
  with e p0 have "clear_percentage_var s 0 0 = Fin 1" by (simp add: true_divide_def)
  with h p s e p0 show ?thesis by (simp add: tally_at_def)
qed

section \<open>Properties of the compositing choice and of the final counts\<close>

text \<open>
  Claim C8. For every compositor id the spectral anomaly query returns a mosaic function
  (the lookup has a default, so nothing is raised): the five known modes map to their
  functions, \<open>most_recent\<close> and \<open>least_recent\<close> both to \<open>create_mosaic\<close>, and any other
  id falls back to \<open>create_mosaic\<close>.
\<close>

theorem get_processing_method_total:
  "(compositor_id q = ''most_recent'' \<longrightarrow> get_processing_method q = create_mosaic) \<and>
   (compositor_id q = ''least_recent'' \<longrightarrow> get_processing_method q = create_mosaic) \<and>
   (compositor_id q = ''max_ndvi'' \<longrightarrow> get_processing_method q = create_max_ndvi_mosaic) \<and>
   (compositor_id q = ''min_ndvi'' \<longrightarrow> get_processing_method q = create_min_ndvi_mosaic) \<and>
   (compositor_id q = ''median_pixel'' \<longrightarrow> get_processing_method q = create_median_mosaic) \<and>
   (compositor_id q \<notin> {''most_recent'', ''least_recent'', ''max_ndvi'', ''min_ndvi'', ''median_pixel''}
      \<longrightarrow> get_processing_method q = create_mosaic)"
  by (simp add: get_processing_method_def processing_methods_def)

theorem get_processing_method_total_witness:
  "compositor_id \<lparr>compositor_id = ''geomedian''\<rparr>
     \<notin> {''most_recent'', ''least_recent'', ''max_ndvi'', ''min_ndvi'', ''median_pixel''} \<and>
   get_processing_method \<lparr>compositor_id = ''geomedian''\<rparr> = create_mosaic \<and>
   get_processing_method \<lparr>compositor_id = ''median_pixel''\<rparr> = create_median_mosaic"
  using get_processing_method_total [of "\<lparr>compositor_id = ''geomedian''\<rparr>"]
    get_processing_method_total [of "\<lparr>compositor_id = ''median_pixel''\<rparr>"]
  by simp

text \<open>
  Claim C9. For every spectral anomaly query \<open>get_reverse_time\<close> is true exactly when the
  compositor id is \<open>most_recent\<close>; when it is true the query is iterative and the
  function selected is \<open>create_mosaic\<close>, the most-recent rule.
\<close>

theorem reverse_time_iff_most_recent:
  "get_reverse_time q = (compositor_id q = ''most_recent'') \<and>
   (get_reverse_time q \<longrightarrow> get_iterative q \<and> get_processing_method q = create_mosaic)"
  by (auto simp add: get_reverse_time_def get_iterative_def get_processing_method_def
      processing_methods_def)

theorem reverse_time_iff_most_recent_witness:
  "get_reverse_time \<lparr>compositor_id = ''most_recent''\<rparr> \<and>
   get_iterative \<lparr>compositor_id = ''most_recent''\<rparr> \<and>
   get_processing_method \<lparr>compositor_id = ''most_recent''\<rparr> = create_mosaic \<and>
   \<not> get_reverse_time \<lparr>compositor_id = ''least_recent''\<rparr>"
  using reverse_time_iff_most_recent [of "\<lparr>compositor_id = ''most_recent''\<rparr>"]
    reverse_time_iff_most_recent [of "\<lparr>compositor_id = ''least_recent''\<rparr>"]
  by simp







section \<open>Properties of the metadata\<close>

lemma combine_metadata_keys:
  "fst ` set (combine_metadata old new) = fst ` set old \<union> fst ` set new"
proof (induction new arbitrary: old)
  case Nil
  then show ?case by simp
next
  case (Cons kv new)
  obtain key v where kv: "kv = (key, v)" by (cases kv)
  show ?case
    by (cases "map_of old key") (auto simp add: kv Cons.IH AList.dom_update)
qed

lemma combine_metadata_is_dict:
  "is_dict old \<Longrightarrow> is_dict (combine_metadata old new)"
proof (induction new arbitrary: old)
  case Nil
  then show ?case by simp
next
  case (Cons kv new)
  obtain key v where kv: "kv = (key, v)" by (cases kv)
  from Cons.prems have "is_dict (AList.update key x old)" for x
    by (simp add: is_dict_def AList.distinct_update)
  then show ?case
    by (cases "map_of old key") (simp_all add: kv Cons.IH)
qed

lemma map_of_combine_metadata:
  assumes "is_dict new"
  shows "map_of (combine_metadata old new) k =
     (case map_of new k of
        None \<Rightarrow> map_of old k
      | Some v \<Rightarrow>
          (case map_of old k of
             None \<Rightarrow> Some v
           | Some t \<Rightarrow> Some (t\<lparr>clean_pixels := clean_pixels t + clean_pixels v\<rparr>)))"
  using assms
proof (induction new arbitrary: old k)
  case Nil
  then show ?case by simp
next
  case (Cons kv new)
  obtain key v where kv: "kv = (key, v)" by (cases kv)
  from Cons.prems kv have d: "is_dict new" and fresh: "map_of new key = None"
    by (auto simp add: is_dict_def map_of_eq_None_iff)
  show ?case
  proof (cases "k = key")
    case True
    then show ?thesis
      by (cases "map_of old key") (simp_all add: kv Cons.IH [OF d] fresh AList.update_conv')
  next
    case False
    then show ?thesis
      by (cases "map_of old key")
        (simp_all add: kv Cons.IH [OF d] AList.update_conv' split: option.splits)
  qed
qed

text \<open>
  Claim C4. For dictionaries \<open>old\<close> and \<open>new\<close>, \<open>combine_metadata\<close> returns a
  dictionary on the keys of both: a key of \<open>new\<close> present in \<open>old\<close> has the two counts
  added, a key absent from \<open>old\<close> is inserted with the entry of \<open>new\<close>, the other keys
  of \<open>old\<close> keep their entries; and merging in the other direction maps every key to the
  same entry (the order of the keys aside).
\<close>

theorem combine_metadata_adds_per_key:
  assumes "is_dict old" and "is_dict new"
  shows "is_dict (combine_metadata old new) \<and>
         fst ` set (combine_metadata old new) = fst ` set old \<union> fst ` set new \<and>
         (\<forall>k t v. map_of old k = Some t \<and> map_of new k = Some v \<longrightarrow>
            map_option clean_pixels (map_of (combine_metadata old new) k)
              = Some (clean_pixels t + clean_pixels v)) \<and>
         (\<forall>k v. map_of old k = None \<and> map_of new k = Some v \<longrightarrow>
            map_of (combine_metadata old new) k = Some v) \<and>
         (\<forall>k. map_of new k = None \<longrightarrow>
            map_of (combine_metadata old new) k = map_of old k) \<and>
         (\<forall>k. map_of (combine_metadata old new) k = map_of (combine_metadata new old) k)"
proof (intro conjI allI impI)
  show "is_dict (combine_metadata old new)"
    using assms(1) by (rule combine_metadata_is_dict)
  show "fst ` set (combine_metadata old new) = fst ` set old \<union> fst ` set new"
    by (rule combine_metadata_keys)
next
  fix k t v
  assume "map_of old k = Some t \<and> map_of new k = Some v"
  then show "map_option clean_pixels (map_of (combine_metadata old new) k)
      = Some (clean_pixels t + clean_pixels v)"
    by (simp add: map_of_combine_metadata [OF assms(2)])
next
  fix k v
  assume "map_of old k = None \<and> map_of new k = Some v"
  then show "map_of (combine_metadata old new) k = Some v"
    by (simp add: map_of_combine_metadata [OF assms(2)])
next
  fix k
  assume "map_of new k = None"
  then show "map_of (combine_metadata old new) k = map_of old k"
    by (simp add: map_of_combine_metadata [OF assms(2)])
next
  fix k
  show "map_of (combine_metadata old new) k = map_of (combine_metadata new old) k"
    by (simp add: map_of_combine_metadata [OF assms(2)] map_of_combine_metadata [OF assms(1)]
        add.commute split: option.splits)
qed

lemma example_dicts:
  "is_dict metadata_a" "is_dict metadata_b"
  by (simp_all add: is_dict_def metadata_a_def metadata_b_def)

theorem combine_metadata_adds_per_key_witness:
  "is_dict metadata_a \<and> is_dict metadata_b \<and>
   combine_metadata metadata_a metadata_b =
     [((2016, 1, 5, 10, 30, 0, 0), \<lparr>clean_pixels = 15\<rparr>),
      ((2016, 2, 6, 10, 31, 0, 0), \<lparr>clean_pixels = 7\<rparr>),
      ((2016, 3, 9, 10, 29, 0, 0), \<lparr>clean_pixels = 4\<rparr>)] \<and>
   map_of (combine_metadata metadata_b metadata_a) (2016, 1, 5, 10, 30, 0, 0)
     = Some \<lparr>clean_pixels = 15\<rparr> \<and>
   map_of (combine_metadata metadata_b metadata_a) (2016, 2, 6, 10, 31, 0, 0)
     = Some \<lparr>clean_pixels = 7\<rparr> \<and>
   map_of (combine_metadata metadata_b metadata_a) (2016, 3, 9, 10, 29, 0, 0)
     = Some \<lparr>clean_pixels = 4\<rparr>"
proof -
  have e: "combine_metadata metadata_a metadata_b =
     [((2016, 1, 5, 10, 30, 0, 0), \<lparr>clean_pixels = 15\<rparr>),
      ((2016, 2, 6, 10, 31, 0, 0), \<lparr>clean_pixels = 7\<rparr>),
      ((2016, 3, 9, 10, 29, 0, 0), \<lparr>clean_pixels = 4\<rparr>)]"
    by (simp add: metadata_a_def metadata_b_def)
  from combine_metadata_adds_per_key [OF example_dicts]
  have "map_of (combine_metadata metadata_b metadata_a) k
      = map_of (combine_metadata metadata_a metadata_b) k" for k
    by metis
  with e example_dicts show ?thesis by simp
qed




lemma str_nat_nonempty: "str_nat n \<noteq> []"
  by (subst str_nat.simps) simp









lemma comprehension_getitem:
  "set ks \<subseteq> fst ` set d \<Longrightarrow>
   comprehension (getitem d) ks = Inr (map (\<lambda>k. the (map_of d k)) ks)"
proof (induction ks)
  case Nil
  then show ?case by simp
next
  case (Cons k ks)
  then have "k \<in> fst ` set d" by simp
  then obtain v where "map_of d k = Some v"
    by (metis map_of_eq_None_iff not_Some_eq)
  with Cons show ?case by (simp add: getitem_def)
qed


lemma metadata_from_dict_Inr:
  "metadata_from_dict str_float self d =
     Inr (self\<lparr>total_scenes := int (length d),
               scenes_processed := int (length d),
               acquisition_list := join '','' (map strftime_mdY (rev (sort (map fst d)))),
               clean_pixels_per_acquisition :=
                 join '','' (map (\<lambda>k. str_int (clean_pixels (the (map_of d k))))
                   (rev (sort (map fst d)))),
               clean_pixel_percentages_per_acquisition :=
                 join '','' (map (\<lambda>k. str_float
                   (true_divide (clean_pixels (the (map_of d k)) * 100) (pixel_count self)))
                   (rev (sort (map fst d))))\<rparr>)"
proof -
  have "set (rev (sort (map fst d))) \<subseteq> fst ` set d" by simp
  from comprehension_getitem [OF this] show ?thesis
    by (simp add: metadata_from_dict_def Let_def comp_def)
qed














text \<open>
  Claim C10. After \<open>metadata_from_dict\<close> on a dictionary, \<open>total_scenes\<close> and
  \<open>scenes_processed\<close> are both the number of distinct acquisition keys of the dictionary,
  hence equal.
\<close>

theorem scenes_equal_keys:
  assumes "is_dict d"
  shows "\<exists>r. metadata_from_dict str_float self d = Inr r \<and>
           total_scenes r = int (card (fst ` set d)) \<and>
           scenes_processed r = int (card (fst ` set d)) \<and>
           total_scenes r = scenes_processed r"
proof -
  from assms have "card (set (map fst d)) = length (map fst d)"
    unfolding is_dict_def by (rule distinct_card)
  then have "card (fst ` set d) = length d" by simp
  then show ?thesis by (simp add: metadata_from_dict_Inr)
qed

theorem scenes_equal_keys_witness:
  "is_dict metadata_a \<and>
   (\<exists>r. metadata_from_dict str_float_whole task_100 metadata_a = Inr r \<and>
      total_scenes r = 2 \<and> scenes_processed r = 2)"
proof -
  have "card (fst ` set metadata_a) = 2"
    by (simp add: metadata_a_def)
  with scenes_equal_keys [OF example_dicts(1), of str_float_whole task_100] example_dicts(1)
  show ?thesis by auto
qed

end
